theory Spec2Isabelle
  imports Main "HOL-Library.Char_ord" "HOL-Library.List_Lexorder" "HOL-Library.Product_Lexorder"
    "HOL-Library.Option_ord"
begin

section \<open>Python string primitives used by the processor\<close>

text \<open>
  Strings are byte strings (\<^typ>\<open>string\<close>). A table cell that pandas reads as missing
  (NaN) is \<^term>\<open>None\<close>; \<open>str(x)\<close> of such a cell is the text \<open>nan\<close>.
\<close>

definition str_cell :: "string option \<Rightarrow> string" where
  "str_cell x = (case x of None \<Rightarrow> ''nan'' | Some s \<Rightarrow> s)"

text \<open>\<open>s.split(sep)\<close> for a one-character separator: never an empty list.\<close>

fun split_chr :: "char \<Rightarrow> string \<Rightarrow> string list" where
  "split_chr sep [] = [[]]"
| "split_chr sep (c # cs) =
     (if c = sep then [] # split_chr sep cs
      else (case split_chr sep cs of
              p # ps \<Rightarrow> (c # p) # ps
            | [] \<Rightarrow> [[c]]))"

text \<open>\<open>s.replace(c, '')\<close> for a one-character \<open>c\<close>.\<close>

definition remove_chr :: "char \<Rightarrow> string \<Rightarrow> string" where
  "remove_chr c s = filter (\<lambda>x. x \<noteq> c) s"

text \<open>\<open>s[:-2]\<close>: the string without its last two characters (empty when shorter).\<close>

definition drop_last2 :: "string \<Rightarrow> string" where
  "drop_last2 s = take (length s - 2) s"

text \<open>\<open>s.startswith(p)\<close>.\<close>

definition startswith :: "string \<Rightarrow> string \<Rightarrow> bool" where
  "startswith s p = (take (length p) s = p)"

text \<open>\<open>s.lower()\<close>, on the ASCII letters; every other byte is left as it is.\<close>

definition lower_chr :: "char \<Rightarrow> char" where
  "lower_chr c =
     (case map_of (zip ''ABCDEFGHIJKLMNOPQRSTUVWXYZ'' ''abcdefghijklmnopqrstuvwxyz'') c of
        Some d \<Rightarrow> d
      | None \<Rightarrow> c)"

definition lower :: "string \<Rightarrow> string" where
  "lower s = map lower_chr s"

text \<open>
  \<open>s.isdigit()\<close> on text decoded as latin1: non-empty, and every character a decimal
  digit or one of the superscript digits two, three and one (code points B2, B3, B9).
\<close>

definition isdigit :: "string \<Rightarrow> bool" where
  "isdigit s =
     (s \<noteq> [] \<and>
      list_all (\<lambda>c. c \<in> set ''0123456789'' \<or> c \<in> set [CHR 0xB2, CHR 0xB3, CHR 0xB9]) s)"

text \<open>The decimal text of a Python \<open>int\<close>, as an f-string formats it.\<close>

definition digit_chr :: "nat \<Rightarrow> char" where
  "digit_chr d = ''0123456789'' ! (d mod 10)"

fun str_nat :: "nat \<Rightarrow> string" where
  "str_nat n = (if n < 10 then [digit_chr n] else str_nat (n div 10) @ [digit_chr (n mod 10)])"

declare str_nat.simps [simp del]

definition str_int :: "int \<Rightarrow> string" where
  "str_int i = (if i < 0 then CHR ''-'' # str_nat (nat (- i)) else str_nat (nat i))"

text \<open>
  \<open>astype(int)\<close> on a column of 64-bit integers (int64, or uint64 when a value is
  \<open>2^63\<close> or more): the signed 64-bit integer with the same bits, so a value from
  \<open>2^63 = 9223372036854775808\<close> wraps to a negative one (\<open>2^64 = 18446744073709551616\<close>).
\<close>

definition astype_int :: "int \<Rightarrow> int" where
  "astype_int c = (c + 9223372036854775808) mod 18446744073709551616 - 9223372036854775808"

text \<open>
  \<open>re.sub(r'\.0$', '', s)\<close>: without the MULTILINE flag \<open>$\<close> matches at the end of the
  string and just before a newline that ends the string, so at most one occurrence is removed.
\<close>

definition strip_dot0 :: "string \<Rightarrow> string" where
  "strip_dot0 s =
     (let n = length s in
      if 2 \<le> n \<and> drop (n - 2) s = ''.0'' then take (n - 2) s
      else if 3 \<le> n \<and> drop (n - 3) s = [CHR ''.'', CHR ''0'', CHR 0x0A] then take (n - 3) s @ [CHR 0x0A]
      else s)"

text \<open>The result of \<open>pd.read_csv\<close> on a file: the two ways it fails, or the rows it read.\<close>

datatype 'a read_csv = EmptyDataError | ReadError | Frame "'a list"

section \<open>IP allow-list (\<open>_load_target_ip_prefixes\<close>)\<close>

text \<open>
  A CSV file as \<open>pd.read_csv\<close> sees it: unparseable, or its columns by name, each with
  its cells. The file system maps a path to the file stored there, if any.
\<close>

datatype csv_file = Unparseable | Csv "(string \<times> string option list) list"

definition netblock_prefix :: "string option \<Rightarrow> string" where
  "netblock_prefix x = drop_last2 (hd (split_chr CHR ''/'' (str_cell x)))"

definition load_target_ip_prefixes ::
  "string option \<Rightarrow> (string \<Rightarrow> csv_file option) \<Rightarrow> string list" where
  "load_target_ip_prefixes target_ip_list_path fs =
     (case target_ip_list_path of
        None \<Rightarrow> []
      | Some path \<Rightarrow>
          if path = [] then []
          else (case fs path of
                  None \<Rightarrow> []
                | Some Unparseable \<Rightarrow> []
                | Some (Csv columns) \<Rightarrow>
                    (case map_of columns ''netblock'' of
                       None \<Rightarrow> []
                     | Some cells \<Rightarrow> map netblock_prefix cells)))"

section \<open>Log aggregation (\<open>_process_log_file\<close>)\<close>

text \<open>
  One request of a daily log, with the columns the processor reads. The numeric columns
  hold whole numbers, taken exactly as written in the file (the rounding of a column that
  pandas reads as float64 is not modelled); a missing cell is \<^term>\<open>None\<close>.
\<close>

record raw_log_row =
  ip :: "string option"
  date :: "string option"
  cik :: "int option"
  accession :: "string option"
  extention :: "string option"
  code :: "int option"
  idx :: "int option"
  crawler :: "int option"

text \<open>Element-wise comparisons of a column with a number: false on a missing cell.\<close>

definition eq_cell :: "int option \<Rightarrow> int \<Rightarrow> bool" where
  "eq_cell x v = (case x of None \<Rightarrow> False | Some y \<Rightarrow> y = v)"

definition lt_cell :: "int option \<Rightarrow> int \<Rightarrow> bool" where
  "lt_cell x v = (case x of None \<Rightarrow> False | Some y \<Rightarrow> y < v)"

definition crawler_mask :: "raw_log_row \<Rightarrow> bool" where
  "crawler_mask r = (\<not> eq_cell (crawler r) 1)"

definition idx_mask :: "raw_log_row \<Rightarrow> bool" where
  "idx_mask r = (\<not> eq_cell (idx r) 1)"

definition code_mask :: "raw_log_row \<Rightarrow> bool" where
  "code_mask r = (\<not> lt_cell (code r) 300)"

definition keep_mask :: "raw_log_row \<Rightarrow> bool" where
  "keep_mask r = (crawler_mask r \<and> idx_mask r \<and> code_mask r)"

text \<open>\<open>dropna(subset=['cik', 'accession', 'date', 'ip'])\<close> keeps a row with none missing.\<close>

definition notna_subset :: "raw_log_row \<Rightarrow> bool" where
  "notna_subset r = (cik r \<noteq> None \<and> accession r \<noteq> None \<and> date r \<noteq> None \<and> ip r \<noteq> None)"

definition filter_rows :: "raw_log_row list \<Rightarrow> raw_log_row list" where
  "filter_rows logs = filter notna_subset (filter keep_mask logs)"

definition target_ip_hit :: "string list \<Rightarrow> raw_log_row \<Rightarrow> bool" where
  "target_ip_hit prefixes r = list_ex (\<lambda>p. startswith (str_cell (ip r)) p) prefixes"

text \<open>The allow-list step runs only when the prefix list is not empty.\<close>

definition ip_filter :: "string list \<Rightarrow> raw_log_row list \<Rightarrow> raw_log_row list" where
  "ip_filter prefixes logs =
     (if prefixes = [] then logs else filter (target_ip_hit prefixes) logs)"

definition file_ext :: "string option \<Rightarrow> string" where
  "file_ext x = lower (last (split_chr CHR ''.'' (str_cell x)))"

record file_counts =
  htm_c :: int
  txt_c :: int
  xbrl_c :: int
  other_c :: int

definition b2i :: "bool \<Rightarrow> int" where
  "b2i b = (if b then 1 else 0)"

definition classify :: "string \<Rightarrow> file_counts" where
  "classify e =
     \<lparr>htm_c = b2i (e = ''htm''), txt_c = b2i (e = ''txt''), xbrl_c = b2i (e = ''xbrl''),
      other_c = (if e \<in> set [''htm'', ''txt'', ''xbrl''] then 0 else 1)\<rparr>"

type_synonym log_key = "string \<times> int \<times> string"

text \<open>
  The group key of a row, with \<open>cik\<close> as \<open>astype(int)\<close> leaves it; \<open>groupby\<close> leaves
  out a row with a missing key column.
\<close>

definition row_key :: "raw_log_row \<Rightarrow> log_key option" where
  "row_key r =
     (case date r of
        None \<Rightarrow> None
      | Some d \<Rightarrow>
          (case cik r of
             None \<Rightarrow> None
           | Some c \<Rightarrow>
               (case accession r of
                  None \<Rightarrow> None
                | Some a \<Rightarrow> Some (d, astype_int c, a))))"

definition keyed :: "raw_log_row list \<Rightarrow> (log_key \<times> file_counts) list" where
  "keyed logs =
     List.map_filter (\<lambda>r. map_option (\<lambda>k. (k, classify (file_ext (extention r)))) (row_key r)) logs"

definition sum_counts :: "file_counts list \<Rightarrow> file_counts" where
  "sum_counts cs =
     \<lparr>htm_c = sum_list (map htm_c cs), txt_c = sum_list (map txt_c cs),
      xbrl_c = sum_list (map xbrl_c cs), other_c = sum_list (map other_c cs)\<rparr>"

text \<open>
  \<open>groupby(keys)[cols].sum().reset_index()\<close>: one row per key, keys in sorted order.
  Dates and accessions are ordered as strings (a column of digits only, which pandas
  reads and orders as numbers, is not modelled; it changes the order of the rows only).
\<close>

definition groupby_sum :: "(log_key \<times> file_counts) list \<Rightarrow> (log_key \<times> file_counts) list" where
  "groupby_sum kvs =
     map (\<lambda>k. (k, sum_counts (map snd (filter (\<lambda>kv. fst kv = k) kvs))))
       (sort (remdups (map fst kvs)))"

record agg_row =
  a_date :: string
  a_cik :: int
  a_accession :: string
  nr_total :: int
  a_htm :: int
  a_txt :: int
  a_xbrl :: int
  a_other :: int

definition output_row :: "log_key \<times> file_counts \<Rightarrow> agg_row" where
  "output_row g =
     (case g of (k, c) \<Rightarrow>
        (case k of (d, ci, a) \<Rightarrow>
           \<lparr>a_date = d, a_cik = ci, a_accession = a,
            nr_total = htm_c c + txt_c c + xbrl_c c + other_c c,
            a_htm = htm_c c, a_txt = txt_c c, a_xbrl = xbrl_c c, a_other = other_c c\<rparr>))"

definition aggregate :: "raw_log_row list \<Rightarrow> agg_row list" where
  "aggregate logs = map output_row (groupby_sum (keyed logs))"

text \<open>
  The table written for one log file, or \<^term>\<open>None\<close> when no file is written: the read
  failed, a filter left nothing, or \<open>astype(int)\<close> met a missing \<open>cik\<close>.
\<close>

definition process_log_file :: "string list \<Rightarrow> raw_log_row read_csv \<Rightarrow> agg_row list option" where
  "process_log_file target_ip_prefixes csv =
     (case csv of
        EmptyDataError \<Rightarrow> None
      | ReadError \<Rightarrow> None
      | Frame rows \<Rightarrow>
          (let logs = filter_rows rows in
           if logs = [] then None
           else
             (let logs = ip_filter target_ip_prefixes logs in
              if logs = [] then None
              else if list_ex (\<lambda>r. cik r = None) logs then None
              else Some (aggregate logs))))"

section \<open>Master index (\<open>run_master_index_download\<close>)\<close>

text \<open>
  \<open>s.strip()\<close> on text decoded as latin1: the white space below code point 256.
\<close>

definition isspace_chr :: "char \<Rightarrow> bool" where
  "isspace_chr c =
     (c \<in> set [CHR 0x09, CHR 0x0A, CHR 0x0B, CHR 0x0C, CHR 0x0D, CHR 0x1C, CHR 0x1D, CHR 0x1E,
               CHR 0x1F, CHR 0x20, CHR 0x85, CHR 0xA0])"

definition strip :: "string \<Rightarrow> string" where
  "strip s = rev (dropWhile isspace_chr (rev (dropWhile isspace_chr s)))"

text \<open>
  A row of a quarterly extract, read with \<open>dtype=str\<close>: the four columns the processor
  uses. A parsed extract is its header names as read and its rows.
\<close>

record index_row =
  CIK :: "string option"
  Form_Type :: "string option"
  Date_Filed :: "string option"
  Filename :: "string option"

record index_table =
  columns :: "string list"
  table_rows :: "index_row list"

text \<open>
  What one pass of the retry loop meets: the download fails, reading the file raises, or
  \<open>pd.read_csv\<close> returns a table.
\<close>

datatype fetched = DownloadFailed | ParseFault | Parsed index_table

datatype verdict = Fault | MissingColumns | Verified "index_row list"

definition expected_cols :: "string list" where
  "expected_cols = [''CIK'', ''Form Type'', ''Date Filed'', ''Filename'']"

text \<open>
  The checks on a table that was read. A missing first \<open>CIK\<close> is a float NaN: it is truthy
  and has no \<open>isdigit\<close>, so the test raises and the attempt counts as a fault.
\<close>

definition verify_table :: "index_table \<Rightarrow> verdict" where
  "verify_table t =
     (let cols = map strip (columns t) in
      if \<not> list_all (\<lambda>c. c \<in> set cols) expected_cols then MissingColumns
      else (case table_rows t of
              [] \<Rightarrow> Verified []
            | r # rs \<Rightarrow>
                (case CIK r of
                   None \<Rightarrow> Fault
                 | Some s \<Rightarrow> if s \<noteq> [] \<and> isdigit s then Verified (r # rs) else Verified rs)))"

datatype quarter = QTR1 | QTR2 | QTR3 | QTR4

datatype event = Download int quarter | Sleep nat | Remove int quarter

record index_state =
  all_index_dfs :: "index_row list list"
  trace :: "event list"

definition max_retries :: nat where
  "max_retries = 3"

definition log_event :: "event \<Rightarrow> index_state \<Rightarrow> index_state" where
  "log_event e st = st\<lparr>trace := trace st @ [e]\<rparr>"

text \<open>The \<open>except\<close> branch, entered with \<open>retries\<close> already incremented.\<close>

definition after_fault :: "int \<Rightarrow> quarter \<Rightarrow> nat \<Rightarrow> index_state \<Rightarrow> index_state" where
  "after_fault year q retries st =
     log_event (Remove year q) (if retries < max_retries then log_event (Sleep 2) st else st)"

text \<open>
  The \<open>while retries < max_retries\<close> loop of one quarter. \<open>attempt k\<close> is what the pass
  entered with \<open>retries = k\<close> meets; every pass that does not leave the loop increments
  \<open>retries\<close>, so passes and values of \<open>retries\<close> correspond.
\<close>

function retry_loop ::
  "(nat \<Rightarrow> fetched) \<Rightarrow> int \<Rightarrow> quarter \<Rightarrow> nat \<Rightarrow> index_state \<Rightarrow> index_state" where
  "retry_loop attempt year q retries st =
     (if retries < max_retries then
        (let st1 = log_event (Download year q) st in
         case attempt retries of
           DownloadFailed \<Rightarrow>
             (if retries + 1 < max_retries
              then retry_loop attempt year q (retries + 1) (log_event (Sleep 2) st1)
              else st1)
         | ParseFault \<Rightarrow>
             retry_loop attempt year q (retries + 1) (after_fault year q (retries + 1) st1)
         | Parsed t \<Rightarrow>
             (case verify_table t of
                Fault \<Rightarrow>
                  retry_loop attempt year q (retries + 1) (after_fault year q (retries + 1) st1)
              | MissingColumns \<Rightarrow> st1
              | Verified df \<Rightarrow> st1\<lparr>all_index_dfs := all_index_dfs st1 @ [df]\<rparr>))
      else st)"
  by pat_completeness auto
termination
  by (relation "measure (\<lambda>(attempt, year, q, retries, st). max_retries - retries)") auto

declare retry_loop.simps [simp del]

definition quarters :: "quarter list" where
  "quarters = [QTR1, QTR2, QTR3, QTR4]"

definition download_quarters ::
  "(int \<Rightarrow> quarter \<Rightarrow> nat \<Rightarrow> fetched) \<Rightarrow> int \<Rightarrow> index_state \<Rightarrow> index_state" where
  "download_quarters world year st = fold (\<lambda>q. retry_loop (world year q) year q 0) quarters st"

definition download_years ::
  "(int \<Rightarrow> quarter \<Rightarrow> nat \<Rightarrow> fetched) \<Rightarrow> int list \<Rightarrow> index_state \<Rightarrow> index_state" where
  "download_years world years st = fold (download_quarters world) years st"

definition empty_state :: index_state where
  "empty_state = \<lparr>all_index_dfs = [], trace = []\<rparr>"

text \<open>The index-side join key: \<open>str(x).split('.')[0]\<close>.\<close>

definition index_acc_path :: "string option \<Rightarrow> string" where
  "index_acc_path x = hd (split_chr CHR ''.'' (str_cell x))"

record master_row =
  m_form_type :: "string option"
  m_date_filed :: "string option"
  acc_path :: string

definition project_row :: "index_row \<Rightarrow> master_row" where
  "project_row r =
     \<lparr>m_form_type = Form_Type r, m_date_filed = Date_Filed r,
      acc_path = index_acc_path (Filename r)\<rparr>"

text \<open>\<open>drop_duplicates()\<close>: the first occurrence of every row, in order.\<close>

primrec drop_dups_seen :: "'a list \<Rightarrow> 'a list \<Rightarrow> 'a list" where
  "drop_dups_seen seen [] = []"
| "drop_dups_seen seen (x # xs) =
     (if x \<in> set seen then drop_dups_seen seen xs else x # drop_dups_seen (x # seen) xs)"

definition drop_duplicates :: "'a list \<Rightarrow> 'a list" where
  "drop_duplicates xs = drop_dups_seen [] xs"

text \<open>
  The tail of the function: an empty table when no quarter was accumulated. Every
  accumulated table passed the column check, so the test for the three columns after
  \<open>pd.concat\<close> succeeds and its \<open>else\<close> branch is not modelled.
\<close>

definition finalize_index :: "index_row list list \<Rightarrow> master_row list" where
  "finalize_index dfs =
     (if dfs = [] then [] else drop_duplicates (map project_row (concat dfs)))"

text \<open>
  \<open>index_years\<close> is \<open>list(range(start_year_index, end_year_index + 1))\<close>. The result
  is the table returned, paired with the downloads, waits and file removals in the order
  they happened.
\<close>

definition run_master_index_download ::
  "(int \<Rightarrow> quarter \<Rightarrow> nat \<Rightarrow> fetched) \<Rightarrow> int \<Rightarrow> int \<Rightarrow> master_row list \<times> event list" where
  "run_master_index_download world start_year_index end_year_index =
     (let st = download_years world [start_year_index..end_year_index] empty_state
      in (finalize_index (all_index_dfs st), trace st))"

section \<open>Reconciliation (\<open>merge_logs_and_index\<close>)\<close>

text \<open>
  The log-side join key: the f-string over the \<open>cik\<close> and the accession of a normalised
  row. Normalising a row strips the \<open>.0\<close> from its accession and casts its \<open>cik\<close> with
  \<open>astype(int)\<close>.
\<close>

definition log_acc_path :: "int \<Rightarrow> string \<Rightarrow> string" where
  "log_acc_path c a = ''edgar/data/'' @ str_int c @ ''/'' @ remove_chr CHR ''-'' a"

definition normalize_log_row :: "agg_row \<Rightarrow> agg_row" where
  "normalize_log_row r =
     r\<lparr>a_accession := strip_dot0 (a_accession r), a_cik := astype_int (a_cik r)\<rparr>"

text \<open>
  The files of one year: \<^term>\<open>None\<close> when the year is skipped (no file, or none that
  could be read), else the concatenation of the files read.
\<close>

definition load_year :: "agg_row read_csv list \<Rightarrow> agg_row list option" where
  "load_year csv_files =
     (let df_list = List.map_filter (\<lambda>f. case f of Frame rows \<Rightarrow> Some rows | _ \<Rightarrow> None) csv_files
      in if df_list = [] then None else Some (concat df_list))"

record 'd merged_row =
  m_date :: 'd
  m_cik :: int
  m_accession :: string
  m_nr_total :: int
  m_htm :: int
  m_txt :: int
  m_xbrl :: int
  m_other :: int
  form :: "string option"
  filing_date :: "string option"

definition joined :: "agg_row \<Rightarrow> string option \<Rightarrow> string option \<Rightarrow> string merged_row" where
  "joined l f d =
     \<lparr>m_date = a_date l, m_cik = a_cik l, m_accession = a_accession l,
      m_nr_total = nr_total l, m_htm = a_htm l, m_txt = a_txt l, m_xbrl = a_xbrl l,
      m_other = a_other l, form = f, filing_date = d\<rparr>"

text \<open>
  \<open>merge(master_index_df, on='acc_path', how='left')\<close>: every log row, once per index row
  with its key, or once with both index columns missing when there is none.
\<close>

definition left_merge :: "master_row list \<Rightarrow> agg_row list \<Rightarrow> string merged_row list" where
  "left_merge master logs =
     concat (map (\<lambda>l.
        (case filter (\<lambda>m. acc_path m = log_acc_path (a_cik l) (a_accession l)) master of
           [] \<Rightarrow> [joined l None None]
         | ms \<Rightarrow> map (\<lambda>m. joined l (m_form_type m) (m_date_filed m)) ms)) logs)"

definition merge_year :: "master_row list \<Rightarrow> agg_row read_csv list \<Rightarrow> string merged_row list option" where
  "merge_year master csv_files =
     (case load_year csv_files of
        None \<Rightarrow> None
      | Some year_logs \<Rightarrow>
          if year_logs = [] then None
          else Some (left_merge master (map normalize_log_row year_logs)))"

datatype merge_error = DateParseError

text \<open>\<open>pd.to_datetime\<close> is a parameter; it raises on a date it cannot read.\<close>

definition convert_date :: "(string \<Rightarrow> 'd option) \<Rightarrow> string merged_row \<Rightarrow> 'd merged_row option" where
  "convert_date to_datetime r =
     map_option
       (\<lambda>d. \<lparr>m_date = d, m_cik = m_cik r, m_accession = m_accession r,
             m_nr_total = m_nr_total r, m_htm = m_htm r, m_txt = m_txt r, m_xbrl = m_xbrl r,
             m_other = m_other r, form = form r, filing_date = filing_date r\<rparr>)
       (to_datetime (m_date r))"

primrec those_rows :: "'a option list \<Rightarrow> 'a list option" where
  "those_rows [] = Some []"
| "those_rows (x # xs) =
     (case x of
        None \<Rightarrow> None
      | Some y \<Rightarrow> (case those_rows xs of None \<Rightarrow> None | Some ys \<Rightarrow> Some (y # ys)))"

text \<open>
  The merged dataset (an empty table is the empty list), or the error that leaves the
  function. \<open>year_files\<close> holds, for every log year, the processed files found for it.
  The casts after the sort act on columns that are 64-bit integers already and change
  nothing.
\<close>

definition merge_logs_and_index ::
  "(string \<Rightarrow> 'd::linorder option) \<Rightarrow> master_row list \<Rightarrow> agg_row read_csv list list
     \<Rightarrow> merge_error + 'd merged_row list" where
  "merge_logs_and_index to_datetime master_index_df year_files =
     (if master_index_df = [] then Inr []
      else
        (let all_merged_logs = List.map_filter (merge_year master_index_df) year_files in
         if all_merged_logs = [] then Inr []
         else
           (let final_logs =
                  filter (\<lambda>r. form r \<noteq> None \<and> filing_date r \<noteq> None) (concat all_merged_logs)
            in if final_logs = [] then Inr []
               else (case those_rows (map (convert_date to_datetime) final_logs) of
                       None \<Rightarrow> Inl DateParseError
                     | Some rows \<Rightarrow> Inr (sort_key (\<lambda>r. (m_cik r, m_date r, form r)) rows)))))"

section \<open>The specification's wording, for comparison with the code\<close>

text \<open>The four filters of the specification, applied one after the other.\<close>

definition spec_filter_in_order :: "raw_log_row list \<Rightarrow> raw_log_row list" where
  "spec_filter_in_order rows =
     filter (\<lambda>r. cik r \<noteq> None \<and> accession r \<noteq> None \<and> date r \<noteq> None \<and> ip r \<noteq> None)
       (filter (\<lambda>r. \<not> (case code r of None \<Rightarrow> False | Some c \<Rightarrow> c < 300))
          (filter (\<lambda>r. idx r \<noteq> Some 1)
             (filter (\<lambda>r. crawler r \<noteq> Some 1) rows)))"

text \<open>The substring after the final \<open>.\<close> (the whole string when it has none).\<close>

definition after_final_dot :: "string \<Rightarrow> string" where
  "after_final_dot s = rev (takeWhile (\<lambda>c. c \<noteq> CHR ''.'') (rev s))"

text \<open>
  What the retry loop of one quarter does, started on the empty state: the events
  it adds to the trace and the tables it adds to the accumulator.
\<close>

definition quarter_events :: "(nat \<Rightarrow> fetched) \<Rightarrow> int \<Rightarrow> quarter \<Rightarrow> event list" where
  "quarter_events attempt year q = trace (retry_loop attempt year q 0 empty_state)"

definition quarter_frames :: "(nat \<Rightarrow> fetched) \<Rightarrow> int \<Rightarrow> quarter \<Rightarrow> index_row list list" where
  "quarter_frames attempt year q = all_index_dfs (retry_loop attempt year q 0 empty_state)"

text \<open>An attempt that is retried, and an attempt that yields a verified table.\<close>

definition is_fault :: "fetched \<Rightarrow> bool" where
  "is_fault f =
     (case f of
        DownloadFailed \<Rightarrow> True
      | ParseFault \<Rightarrow> True
      | Parsed t \<Rightarrow> verify_table t = Fault)"

definition fetched_verified :: "fetched \<Rightarrow> index_row list option" where
  "fetched_verified f =
     (case f of
        Parsed t \<Rightarrow> (case verify_table t of Verified df \<Rightarrow> Some df | _ \<Rightarrow> None)
      | _ \<Rightarrow> None)"

text \<open>A state with tables and events added at the end.\<close>

definition appended :: "index_state \<Rightarrow> index_row list list \<Rightarrow> event list \<Rightarrow> index_state" where
  "appended st fs es = st\<lparr>all_index_dfs := all_index_dfs st @ fs, trace := trace st @ es\<rparr>"

text \<open>
  A sample run of the index stage: the first quarter never downloads, the second is read
  at its second attempt, the third lacks the expected columns, the fourth is read at once.
\<close>

definition demo_table :: index_table where
  "demo_table =
     \<lparr>columns = [''CIK'', ''Company Name'', ''Form Type'', ''Date Filed'', ''Filename ''],
      table_rows =
        [\<lparr>CIK = Some ''--------'', Form_Type = None, Date_Filed = None, Filename = None\<rparr>,
         \<lparr>CIK = Some ''1000045'', Form_Type = Some ''10-Q'', Date_Filed = Some ''2010-05-03'',
          Filename = Some ''edgar/data/1000045/000119312510012345.txt''\<rparr>]\<rparr>"

definition demo_world :: "int \<Rightarrow> quarter \<Rightarrow> nat \<Rightarrow> fetched" where
  "demo_world year q k =
     (case q of
        QTR1 \<Rightarrow> DownloadFailed
      | QTR2 \<Rightarrow> (if k = 0 then ParseFault else Parsed demo_table)
      | QTR3 \<Rightarrow> Parsed \<lparr>columns = [''CIK''], table_rows = []\<rparr>
      | QTR4 \<Rightarrow> Parsed demo_table)"

section \<open>Strings\<close>

lemma split_chr_nonempty: "split_chr sep s \<noteq> []"
  by (induction s) (auto split: list.splits)

lemma hd_split_chr: "hd (split_chr sep s) = takeWhile (\<lambda>c. c \<noteq> sep) s"
  by (induction s) (auto split: list.splits simp: split_chr_nonempty)

lemma split_chr_no_sep: "sep \<notin> set s \<Longrightarrow> split_chr sep s = [s]"
  by (induction s) auto

lemma split_chr_sep_tl: "sep \<in> set s \<Longrightarrow> tl (split_chr sep s) \<noteq> []"
  by (induction s) (auto split: list.splits simp: split_chr_nonempty)

lemma last_split_chr: "last (split_chr sep s) = rev (takeWhile (\<lambda>c. c \<noteq> sep) (rev s))"
proof (induction s)
  case Nil
  then show ?case by simp
next
  case (Cons c cs)
  show ?case
  proof (cases "c = sep")
    case True
    then show ?thesis using Cons split_chr_nonempty[of sep cs]
      by (simp add: takeWhile_append)
  next
    case False
    note neq = this
    show ?thesis
    proof (cases "sep \<in> set cs")
      case True
      then obtain p q ps where sp: "split_chr sep cs = p # q # ps"
        using split_chr_sep_tl[OF True] split_chr_nonempty[of sep cs]
        by (cases "split_chr sep cs"; cases "tl (split_chr sep cs)") auto
      have "rev (takeWhile (\<lambda>c. c \<noteq> sep) (rev (c # cs))) = rev (takeWhile (\<lambda>c. c \<noteq> sep) (rev cs))"
        using True by (auto simp: takeWhile_append)
      then show ?thesis using Cons neq sp by simp
    next
      case False
      then show ?thesis using neq split_chr_no_sep[of sep "c # cs"] by (simp add: takeWhile_append)
    qed
  qed
qed


lemma str_nat_small: "n < 10 \<Longrightarrow> str_nat n = [digit_chr n]"
  by (subst str_nat.simps) simp

lemma str_nat_large: "10 \<le> n \<Longrightarrow> str_nat n = str_nat (n div 10) @ [digit_chr (n mod 10)]"
  by (subst str_nat.simps) simp

lemma digit_chr_mem: "digit_chr d \<in> set ''0123456789''"
  unfolding digit_chr_def by (rule nth_mem) simp

lemma str_nat_digits: "set (str_nat n) \<subseteq> set ''0123456789''"
proof (induction n rule: str_nat.induct)
  case (1 n)
  show ?case
  proof (cases "n < 10")
    case True
    then show ?thesis using digit_chr_mem[of n] by (subst str_nat.simps) simp
  next
    case False
    then show ?thesis using 1 digit_chr_mem[of "n mod 10"] by (subst str_nat.simps) simp
  qed
qed

lemma str_int_no_dot: "CHR ''.'' \<notin> set (str_int i)"
  using str_nat_digits[of "nat i"] str_nat_digits[of "nat (- i)"]
  by (auto simp: str_int_def)

lemma strip_dot0_no_dot: "CHR ''.'' \<notin> set s \<Longrightarrow> strip_dot0 s = s"
proof -
  assume a: "CHR ''.'' \<notin> set s"
  have "drop n s \<noteq> CHR ''.'' # t" for n t
  proof
    assume "drop n s = CHR ''.'' # t"
    then have "CHR ''.'' \<in> set (drop n s)" by simp
    then show False using a by (meson in_set_dropD)
  qed
  then show ?thesis by (simp add: strip_dot0_def Let_def)
qed

lemma takeWhile_before_sep:
  "sep \<notin> set pre \<Longrightarrow> takeWhile (\<lambda>c. c \<noteq> sep) (pre @ sep # rest) = pre"
  by (induction pre) auto

section \<open>Join key\<close>

lemma astype_int_int64:
  "- 9223372036854775808 \<le> c \<Longrightarrow> c < 9223372036854775808 \<Longrightarrow> astype_int c = c"
  by (simp add: astype_int_def)

lemma str_int_minus_2_63: "str_int (- 9223372036854775808) = ''-9223372036854775808''"
  by (simp add: str_int_def str_nat_small str_nat_large digit_chr_def)

text \<open>
  C1, as stated, fails for a filer id that does not fit a signed 64-bit integer: the log
  side casts the id with \<open>astype(int)\<close>, so the id \<open>2^63 = 9223372036854775808\<close> is
  formatted as \<open>-9223372036854775808\<close>, and the log-side key differs from the index-side
  key of \<open>edgar/data/9223372036854775808/000119312510012345.txt\<close>.
\<close>

theorem join_key_wraps_at_2_63:
  "log_acc_path
     (a_cik (normalize_log_row
        \<lparr>a_date = ''2011-04-02'', a_cik = 9223372036854775808,
         a_accession = ''0001193125-10-012345'', nr_total = 1,
         a_htm = 1, a_txt = 0, a_xbrl = 0, a_other = 0\<rparr>))
     (a_accession (normalize_log_row
        \<lparr>a_date = ''2011-04-02'', a_cik = 9223372036854775808,
         a_accession = ''0001193125-10-012345'', nr_total = 1,
         a_htm = 1, a_txt = 0, a_xbrl = 0, a_other = 0\<rparr>))
     = ''edgar/data/-9223372036854775808/000119312510012345'' \<and>
   index_acc_path (Some ''edgar/data/9223372036854775808/000119312510012345.txt'')
     = ''edgar/data/9223372036854775808/000119312510012345'' \<and>
   ''edgar/data/-9223372036854775808/000119312510012345''
     \<noteq> ''edgar/data/9223372036854775808/000119312510012345''"
proof -
  have c: "astype_int 9223372036854775808 = - 9223372036854775808"
    by (simp add: astype_int_def)
  show ?thesis
    by (simp add: normalize_log_row_def c log_acc_path_def str_int_minus_2_63 strip_dot0_def
        remove_chr_def index_acc_path_def str_cell_def)
qed

text \<open>
  C1, amended. For every log row whose filer id fits a signed 64-bit integer (so every
  unsigned id below \<open>2^63\<close>) and whose accession has no dot (dashes allowed), the
  log-side key of the normalised row, \<open>edgar/data/{cik}/{accession with dashes removed}\<close>,
  is the same string as the index-side key of the filename
  \<open>edgar/data/{id}/{accession-digits}.{ext}\<close>, which is that filename cut at its first dot.
\<close>

theorem join_key_agrees:
  assumes "CHR ''.'' \<notin> set (a_accession l)"
    and "- 9223372036854775808 \<le> a_cik l" and "a_cik l < 9223372036854775808"
  shows "log_acc_path (a_cik (normalize_log_row l)) (a_accession (normalize_log_row l)) =
         index_acc_path
           (Some (''edgar/data/'' @ str_int (a_cik l) @ ''/'' @
                  remove_chr CHR ''-'' (a_accession l) @ ''.'' @ ext))"
proof -
  let ?pre = "''edgar/data/'' @ str_int (a_cik l) @ ''/'' @ remove_chr CHR ''-'' (a_accession l)"
  have nodot: "CHR ''.'' \<notin> set ?pre"
    using assms(1) str_int_no_dot[of "a_cik l"] by (auto simp: remove_chr_def)
  have "index_acc_path (Some (?pre @ ''.'' @ ext)) =
        takeWhile (\<lambda>c. c \<noteq> CHR ''.'') (?pre @ CHR ''.'' # ext)"
    by (simp only: index_acc_path_def hd_split_chr str_cell_def option.case append.simps)
  also have "\<dots> = ?pre" using nodot by (rule takeWhile_before_sep)
  finally show ?thesis
    using assms
    by (simp add: log_acc_path_def normalize_log_row_def strip_dot0_no_dot astype_int_int64)
qed

text \<open>
  The amended theorem at filer 1000045 and accession \<open>0001193125-10-012345\<close>: both sides
  give \<open>edgar/data/1000045/000119312510012345\<close>.
\<close>

theorem join_key_agrees_witness:
  "log_acc_path
     (a_cik (normalize_log_row
        \<lparr>a_date = ''2011-04-02'', a_cik = 1000045,
         a_accession = ''0001193125-10-012345'', nr_total = 1,
         a_htm = 1, a_txt = 0, a_xbrl = 0, a_other = 0\<rparr>))
     (a_accession (normalize_log_row
        \<lparr>a_date = ''2011-04-02'', a_cik = 1000045,
         a_accession = ''0001193125-10-012345'', nr_total = 1,
         a_htm = 1, a_txt = 0, a_xbrl = 0, a_other = 0\<rparr>))
     = index_acc_path (Some ''edgar/data/1000045/000119312510012345.txt'') \<and>
   index_acc_path (Some ''edgar/data/1000045/000119312510012345.txt'') =
     ''edgar/data/1000045/000119312510012345''"
proof -
  let ?l = "\<lparr>a_date = ''2011-04-02'', a_cik = 1000045,
         a_accession = ''0001193125-10-012345'', nr_total = 1,
         a_htm = 1, a_txt = 0, a_xbrl = 0, a_other = 0\<rparr>"
  have nd: "CHR ''.'' \<notin> set (a_accession ?l)" by simp
  have lo: "- 9223372036854775808 \<le> a_cik ?l" and hi: "a_cik ?l < 9223372036854775808"
    by simp_all
  have s: "str_int 1000045 = ''1000045''"
    by (simp add: str_int_def str_nat_small str_nat_large digit_chr_def)
  have r: "remove_chr CHR ''-'' ''0001193125-10-012345'' = ''000119312510012345''"
    by (simp add: remove_chr_def)
  have i: "index_acc_path (Some ''edgar/data/1000045/000119312510012345.txt'') =
           ''edgar/data/1000045/000119312510012345''"
    by (simp add: index_acc_path_def str_cell_def)
  show ?thesis using join_key_agrees[OF nd lo hi, of "''txt''"] i by (simp add: s r)
qed

section \<open>Log filtering and aggregation\<close>

lemma eq_cell_iff: "eq_cell x v \<longleftrightarrow> x = Some v"
  by (cases x) (auto simp: eq_cell_def)

lemma keep_mask_iff:
  "keep_mask r \<longleftrightarrow>
     crawler r \<noteq> Some 1 \<and> idx r \<noteq> Some 1 \<and> \<not> (case code r of None \<Rightarrow> False | Some c \<Rightarrow> c < 300)"
  by (simp add: keep_mask_def crawler_mask_def idx_mask_def code_mask_def eq_cell_iff lt_cell_def)

lemma filter_rows_drop:
  "\<not> keep_mask r \<Longrightarrow> filter_rows (xs @ r # ys) = filter_rows (xs @ ys)"
  by (simp add: filter_rows_def)

lemma groupby_sum_keys: "map fst (groupby_sum kvs) = sort (remdups (map fst kvs))"
  by (simp add: groupby_sum_def comp_def)

lemma distinct_groupby_sum: "distinct (map fst (groupby_sum kvs))"
  by (simp add: groupby_sum_keys)

lemma output_row_key:
  "(a_date (output_row g), a_cik (output_row g), a_accession (output_row g)) = fst g"
  by (simp add: output_row_def split: prod.splits)

lemma output_row_total:
  "nr_total (output_row g) =
     a_htm (output_row g) + a_txt (output_row g) + a_xbrl (output_row g) + a_other (output_row g)"
  by (simp add: output_row_def split: prod.splits)

lemma aggregate_keys:
  "map (\<lambda>g. (a_date g, a_cik g, a_accession g)) (aggregate logs) = map fst (groupby_sum (keyed logs))"
  by (simp add: aggregate_def comp_def output_row_key)

text \<open>
  C2. Whatever the raw rows and the allow-list, every row of the table written for a log
  file has \<open>nr_total = htm + txt + xbrl + other\<close>, and no two rows of it have the same
  \<open>(date, cik, accession)\<close>.
\<close>

theorem aggregated_rows_total_and_unique_keys:
  assumes "process_log_file prefixes csv = Some out"
  shows "(\<forall>g \<in> set out. nr_total g = a_htm g + a_txt g + a_xbrl g + a_other g) \<and>
         distinct (map (\<lambda>g. (a_date g, a_cik g, a_accession g)) out)"
proof -
  obtain logs where out: "out = aggregate logs"
    using assms by (auto simp: process_log_file_def Let_def split: read_csv.splits if_splits)
  have "\<forall>g \<in> set out. nr_total g = a_htm g + a_txt g + a_xbrl g + a_other g"
    unfolding out aggregate_def using output_row_total by auto
  moreover have "distinct (map (\<lambda>g. (a_date g, a_cik g, a_accession g)) out)"
    unfolding out aggregate_keys by (rule distinct_groupby_sum)
  ultimately show ?thesis by simp
qed

lemma three_rows_aggregated:
  "process_log_file []
     (Frame [\<lparr>ip = Some ''1.2.3.4'', date = Some ''2011-01-02'', cik = Some 5,
              accession = Some ''0001-11-000001'', extention = Some ''htm'',
              code = Some 304, idx = Some 0, crawler = Some 0\<rparr>,
             \<lparr>ip = Some ''1.2.3.4'', date = Some ''2011-01-01'', cik = Some 7,
              accession = Some ''0001-11-000002'', extention = Some ''a.TXT'',
              code = None, idx = Some 0, crawler = Some 0\<rparr>,
             \<lparr>ip = Some ''1.2.3.9'', date = Some ''2011-01-02'', cik = Some 5,
              accession = Some ''0001-11-000001'', extention = None,
              code = Some 404, idx = None, crawler = None\<rparr>])
   = Some [\<lparr>a_date = ''2011-01-01'', a_cik = 7, a_accession = ''0001-11-000002'', nr_total = 1,
              a_htm = 0, a_txt = 1, a_xbrl = 0, a_other = 0\<rparr>,
           \<lparr>a_date = ''2011-01-02'', a_cik = 5, a_accession = ''0001-11-000001'', nr_total = 2,
              a_htm = 1, a_txt = 0, a_xbrl = 0, a_other = 1\<rparr>]"
  by code_simp

text \<open>
  The theorem on three requests of two filings: two output rows, with totals 1 and 2 and
  different keys.
\<close>

theorem aggregated_rows_total_and_unique_keys_witness:
  "process_log_file []
     (Frame [\<lparr>ip = Some ''1.2.3.4'', date = Some ''2011-01-02'', cik = Some 5,
              accession = Some ''0001-11-000001'', extention = Some ''htm'',
              code = Some 304, idx = Some 0, crawler = Some 0\<rparr>,
             \<lparr>ip = Some ''1.2.3.4'', date = Some ''2011-01-01'', cik = Some 7,
              accession = Some ''0001-11-000002'', extention = Some ''a.TXT'',
              code = None, idx = Some 0, crawler = Some 0\<rparr>,
             \<lparr>ip = Some ''1.2.3.9'', date = Some ''2011-01-02'', cik = Some 5,
              accession = Some ''0001-11-000001'', extention = None,
              code = Some 404, idx = None, crawler = None\<rparr>])
   = Some [\<lparr>a_date = ''2011-01-01'', a_cik = 7, a_accession = ''0001-11-000002'', nr_total = 1,
              a_htm = 0, a_txt = 1, a_xbrl = 0, a_other = 0\<rparr>,
           \<lparr>a_date = ''2011-01-02'', a_cik = 5, a_accession = ''0001-11-000001'', nr_total = 2,
              a_htm = 1, a_txt = 0, a_xbrl = 0, a_other = 1\<rparr>] \<and>
   distinct [(''2011-01-01'', 7::int, ''0001-11-000002''), (''2011-01-02'', 5, ''0001-11-000001'')]"
  using aggregated_rows_total_and_unique_keys [OF three_rows_aggregated] three_rows_aggregated
  by simp

text \<open>
  C3. The rows kept by the filter are exactly the rows that pass, in order: crawler flag
  not set, index-page flag not set, status code not below 300, and none of \<open>cik\<close>,
  \<open>accession\<close>, \<open>date\<close>, \<open>ip\<close> missing. A row with \<open>crawler = 1\<close> (whatever its
  code, so also 200) changes nothing in the output of the file it is in.
\<close>

theorem filter_rows_keeps_exactly:
  "filter_rows rows = spec_filter_in_order rows \<and>
   (crawler r = Some 1 \<longrightarrow>
      process_log_file prefixes (Frame (xs @ r # ys)) = process_log_file prefixes (Frame (xs @ ys)))"
proof
  show "filter_rows rows = spec_filter_in_order rows"
    by (simp add: filter_rows_def spec_filter_in_order_def notna_subset_def keep_mask_iff
        conj_commute conj_left_commute cong: filter_cong)
next
  show "crawler r = Some 1 \<longrightarrow>
      process_log_file prefixes (Frame (xs @ r # ys)) = process_log_file prefixes (Frame (xs @ ys))"
  proof
    assume "crawler r = Some 1"
    then have "\<not> keep_mask r" by (simp add: keep_mask_def crawler_mask_def eq_cell_def)
    then have "filter_rows (xs @ r # ys) = filter_rows (xs @ ys)" by (rule filter_rows_drop)
    then show "process_log_file prefixes (Frame (xs @ r # ys)) = process_log_file prefixes (Frame (xs @ ys))"
      by (simp add: process_log_file_def)
  qed
qed

text \<open>
  The theorem on a file of two rows, the second with \<open>code = 200\<close> and \<open>crawler = 1\<close>:
  the output is that of the first row alone.
\<close>

theorem filter_rows_keeps_exactly_witness:
  "process_log_file []
     (Frame [\<lparr>ip = Some ''1.2.3.4'', date = Some ''2011-01-02'', cik = Some 5,
              accession = Some ''0001-11-000001'', extention = Some ''htm'',
              code = Some 304, idx = Some 0, crawler = Some 0\<rparr>,
             \<lparr>ip = Some ''1.2.3.4'', date = Some ''2011-01-02'', cik = Some 5,
              accession = Some ''0001-11-000001'', extention = Some ''htm'',
              code = Some 200, idx = Some 0, crawler = Some 1\<rparr>])
   = process_log_file []
     (Frame [\<lparr>ip = Some ''1.2.3.4'', date = Some ''2011-01-02'', cik = Some 5,
              accession = Some ''0001-11-000001'', extention = Some ''htm'',
              code = Some 304, idx = Some 0, crawler = Some 0\<rparr>])"
  using filter_rows_keeps_exactly
    [of "[]" "\<lparr>ip = Some ''1.2.3.4'', date = Some ''2011-01-02'', cik = Some 5,
              accession = Some ''0001-11-000001'', extention = Some ''htm'',
              code = Some 200, idx = Some 0, crawler = Some 1\<rparr>" "[]"
        "[\<lparr>ip = Some ''1.2.3.4'', date = Some ''2011-01-02'', cik = Some 5,
              accession = Some ''0001-11-000001'', extention = Some ''htm'',
              code = Some 304, idx = Some 0, crawler = Some 0\<rparr>]" "[]"]
  by simp

text \<open>
  C9. A missing crawler flag, index-page flag or status code is kept by its filter: the
  crawler and index-page filters drop only a flag equal to 1, and the status filter drops
  only a code that is present and below 300. A row with all three missing passes the mask.
\<close>

theorem missing_flags_are_retained:
  "(crawler_mask r \<longleftrightarrow> crawler r \<noteq> Some 1) \<and>
   (idx_mask r \<longleftrightarrow> idx r \<noteq> Some 1) \<and>
   (code_mask r \<longleftrightarrow> \<not> (\<exists>c. code r = Some c \<and> c < 300)) \<and>
   (crawler r = None \<longrightarrow> crawler_mask r) \<and>
   (idx r = None \<longrightarrow> idx_mask r) \<and>
   (code r = None \<longrightarrow> code_mask r) \<and>
   (crawler r = None \<and> idx r = None \<and> code r = None \<longrightarrow> keep_mask r)"
  by (cases "code r")
     (auto simp: keep_mask_def crawler_mask_def idx_mask_def code_mask_def eq_cell_iff lt_cell_def)

text \<open>The theorem on a row whose three cells are all missing: it is kept.\<close>

theorem missing_flags_are_retained_witness:
  "keep_mask \<lparr>ip = Some ''1.2.3.4'', date = Some ''2011-01-02'', cik = Some 5,
              accession = Some ''0001-11-000001'', extention = Some ''htm'',
              code = None, idx = None, crawler = None\<rparr> \<and>
   filter_rows [\<lparr>ip = Some ''1.2.3.4'', date = Some ''2011-01-02'', cik = Some 5,
              accession = Some ''0001-11-000001'', extention = Some ''htm'',
              code = None, idx = None, crawler = None\<rparr>]
     = [\<lparr>ip = Some ''1.2.3.4'', date = Some ''2011-01-02'', cik = Some 5,
              accession = Some ''0001-11-000001'', extention = Some ''htm'',
              code = None, idx = None, crawler = None\<rparr>]"
  using missing_flags_are_retained
    [of "\<lparr>ip = Some ''1.2.3.4'', date = Some ''2011-01-02'', cik = Some 5,
              accession = Some ''0001-11-000001'', extention = Some ''htm'',
              code = None, idx = None, crawler = None\<rparr>"]
  by (simp add: filter_rows_def notna_subset_def)

text \<open>
  C8. The file type of a row is the lower-cased substring of its extension after the final
  dot. Each of the four indicators is 0 or 1, exactly one is 1, and \<open>other\<close> is 1 exactly
  when the file type is none of \<open>htm\<close>, \<open>txt\<close>, \<open>xbrl\<close>.
\<close>

theorem classify_exactly_one_category:
  "file_ext (extention r) = lower (after_final_dot (str_cell (extention r))) \<and>
   (let c = classify (file_ext (extention r)) in
      htm_c c \<in> {0, 1} \<and> txt_c c \<in> {0, 1} \<and> xbrl_c c \<in> {0, 1} \<and> other_c c \<in> {0, 1} \<and>
      htm_c c + txt_c c + xbrl_c c + other_c c = 1 \<and>
      (htm_c c = 1 \<longleftrightarrow> file_ext (extention r) = ''htm'') \<and>
      (txt_c c = 1 \<longleftrightarrow> file_ext (extention r) = ''txt'') \<and>
      (xbrl_c c = 1 \<longleftrightarrow> file_ext (extention r) = ''xbrl'') \<and>
      (other_c c = 1 \<longleftrightarrow> file_ext (extention r) \<notin> {''htm'', ''txt'', ''xbrl''}))"
  by (simp add: file_ext_def after_final_dot_def last_split_chr classify_def b2i_def Let_def)

text \<open>The theorem on the extension \<open>report.XML\<close>: the file type is \<open>xml\<close>, counted as other.\<close>

theorem classify_exactly_one_category_witness:
  "file_ext (Some ''report.XML'') = ''xml'' \<and>
   other_c (classify ''xml'') = 1 \<and> htm_c (classify ''xml'') = 0"
proof -
  let ?r = "\<lparr>ip = None, date = None, cik = None, accession = None,
            extention = Some ''report.XML'', code = None, idx = None, crawler = None\<rparr>"
  have e: "file_ext (extention ?r) = ''xml''" by code_simp
  note t = classify_exactly_one_category[of ?r, unfolded Let_def e]
  from t have o: "other_c (classify ''xml'') = 1 \<longleftrightarrow> ''xml'' \<notin> {''htm'', ''txt'', ''xbrl''}"
    by - (elim conjE, assumption)
  from t have h: "htm_c (classify ''xml'') \<in> {0, 1}"
    by - (elim conjE, assumption)
  from t have h1: "htm_c (classify ''xml'') = 1 \<longleftrightarrow> ''xml'' = ''htm''"
    by - (elim conjE, assumption)
  from o have "other_c (classify ''xml'') = 1" by simp
  moreover from h h1 have "htm_c (classify ''xml'') = 0" by simp
  moreover have "file_ext (Some ''report.XML'') = ''xml''" using e by simp
  ultimately show ?thesis by (intro conjI)
qed

lemma file_ext_htm: "file_ext (Some ''htm'') = ''htm''"
  by code_simp

lemma file_ext_xml: "file_ext (Some ''xml'') = ''xml''"
  by code_simp

text \<open>
  C4, as stated, fails: with \<open>code = 200\<close> both rows are dropped by the status filter
  (200 is below 300), so no table is written for the file.
\<close>

theorem scenario_code_200_no_output:
  "process_log_file []
     (Frame [\<lparr>ip = Some ''1.2.3.4'', date = Some ''2011-01-01'', cik = Some 5,
              accession = Some ''0001-11-000001'', extention = Some ''htm'',
              code = Some 200, idx = Some 0, crawler = Some 0\<rparr>,
             \<lparr>ip = Some ''1.2.3.4'', date = Some ''2011-01-01'', cik = Some 5,
              accession = Some ''0001-11-000001'', extention = Some ''xml'',
              code = Some 200, idx = Some 0, crawler = Some 0\<rparr>]) = None"
  by (simp add: process_log_file_def filter_rows_def keep_mask_def code_mask_def lt_cell_def)

text \<open>
  C4, amended. Two raw rows with \<open>crawler = 0\<close>, \<open>idx = 0\<close>, a status code not below
  300, an address (passing the allow-list when one is loaded), the same date, filer id and
  accession, and the extensions \<open>htm\<close> and \<open>xml\<close>, give exactly one aggregated row with
  \<open>nr_total = 2\<close>, \<open>htm = 1\<close>, \<open>other = 1\<close>, \<open>txt = 0\<close>, \<open>xbrl = 0\<close>; its key is
  the common date, the filer id as \<open>astype(int)\<close> leaves it, and the accession.
\<close>

theorem scenario_two_rows_one_aggregate:
  assumes "300 \<le> k1" and "300 \<le> k2"
    and "prefixes = [] \<or> (list_ex (startswith i1) prefixes \<and> list_ex (startswith i2) prefixes)"
  shows "process_log_file prefixes
     (Frame [\<lparr>ip = Some i1, date = Some d, cik = Some c,
              accession = Some a, extention = Some ''htm'',
              code = Some k1, idx = Some 0, crawler = Some 0\<rparr>,
             \<lparr>ip = Some i2, date = Some d, cik = Some c,
              accession = Some a, extention = Some ''xml'',
              code = Some k2, idx = Some 0, crawler = Some 0\<rparr>])
     = Some [\<lparr>a_date = d, a_cik = astype_int c, a_accession = a, nr_total = 2,
              a_htm = 1, a_txt = 0, a_xbrl = 0, a_other = 1\<rparr>]"
proof -
  let ?r1 = "\<lparr>ip = Some i1, date = Some d, cik = Some c,
              accession = Some a, extention = Some ''htm'',
              code = Some k1, idx = Some 0, crawler = Some 0\<rparr>"
  let ?r2 = "\<lparr>ip = Some i2, date = Some d, cik = Some c,
              accession = Some a, extention = Some ''xml'',
              code = Some k2, idx = Some 0, crawler = Some 0\<rparr>"
  have f: "filter_rows [?r1, ?r2] = [?r1, ?r2]"
    using assms(1,2)
    by (simp add: filter_rows_def keep_mask_def crawler_mask_def idx_mask_def code_mask_def
        eq_cell_def lt_cell_def notna_subset_def)
  have i: "ip_filter prefixes [?r1, ?r2] = [?r1, ?r2]"
    using assms(3) by (auto simp: ip_filter_def target_ip_hit_def str_cell_def)
  have k: "keyed [?r1, ?r2] =
             [((d, astype_int c, a), classify ''htm''), ((d, astype_int c, a), classify ''xml'')]"
    by (simp add: keyed_def List.map_filter_def row_key_def file_ext_htm file_ext_xml)
  have g: "aggregate [?r1, ?r2] = [\<lparr>a_date = d, a_cik = astype_int c, a_accession = a, nr_total = 2,
              a_htm = 1, a_txt = 0, a_xbrl = 0, a_other = 1\<rparr>]"
    unfolding aggregate_def k
    by (simp add: groupby_sum_def sum_counts_def classify_def b2i_def output_row_def)
  show ?thesis
    unfolding process_log_file_def by (simp add: f i g Let_def)
qed

text \<open>The amended scenario with status code 304 on both rows and no allow-list.\<close>

theorem scenario_two_rows_one_aggregate_witness:
  "process_log_file []
     (Frame [\<lparr>ip = Some ''1.2.3.4'', date = Some ''2011-01-01'', cik = Some 5,
              accession = Some ''0001-11-000001'', extention = Some ''htm'',
              code = Some 304, idx = Some 0, crawler = Some 0\<rparr>,
             \<lparr>ip = Some ''1.2.3.4'', date = Some ''2011-01-01'', cik = Some 5,
              accession = Some ''0001-11-000001'', extention = Some ''xml'',
              code = Some 304, idx = Some 0, crawler = Some 0\<rparr>])
     = Some [\<lparr>a_date = ''2011-01-01'', a_cik = 5, a_accession = ''0001-11-000001'', nr_total = 2,
              a_htm = 1, a_txt = 0, a_xbrl = 0, a_other = 1\<rparr>]"
  using scenario_two_rows_one_aggregate
    [of 304 304 "[]" "''1.2.3.4''" "''1.2.3.4''" "''2011-01-01''" 5 "''0001-11-000001''"]
  by (simp add: astype_int_def)

section \<open>IP allow-list\<close>

text \<open>
  C7. Loading the allow-list gives the empty prefix list when no path is configured (none,
  or the empty string), when no file is at the path, when the file cannot be parsed, and
  when it has no \<open>netblock\<close> column; the result is a list in every case. With an empty
  prefix list the allow-list step leaves the rows as they are.
\<close>

theorem load_prefixes_degrades_to_no_filter:
  "load_target_ip_prefixes None fs = [] \<and>
   load_target_ip_prefixes (Some []) fs = [] \<and>
   (fs p = None \<longrightarrow> load_target_ip_prefixes (Some p) fs = []) \<and>
   (fs p = Some Unparseable \<longrightarrow> load_target_ip_prefixes (Some p) fs = []) \<and>
   (fs p = Some (Csv cols) \<and> ''netblock'' \<notin> set (map fst cols) \<longrightarrow>
      load_target_ip_prefixes (Some p) fs = []) \<and>
   ip_filter [] logs = logs \<and>
   process_log_file [] (Frame logs) =
     (if filter_rows logs = [] \<or> list_ex (\<lambda>r. cik r = None) (filter_rows logs) then None
      else Some (aggregate (filter_rows logs)))"
proof -
  have "''netblock'' \<notin> set (map fst cols) \<Longrightarrow> map_of cols ''netblock'' = None"
    by (simp add: map_of_eq_None_iff)
  then show ?thesis
    by (auto simp: load_target_ip_prefixes_def ip_filter_def process_log_file_def Let_def)
qed

text \<open>
  The theorem on a file without the \<open>netblock\<close> column: no prefix is loaded and a row
  from any address stays.
\<close>

theorem load_prefixes_degrades_to_no_filter_witness:
  "load_target_ip_prefixes (Some ''ips.csv'')
     (\<lambda>p. if p = ''ips.csv'' then Some (Csv [(''cidr'', [Some ''10.20.30.0/24''])]) else None) = [] \<and>
   ip_filter []
     [\<lparr>ip = Some ''99.1.2.3'', date = Some ''2011-01-02'', cik = Some 5,
       accession = Some ''0001-11-000001'', extention = Some ''htm'',
       code = Some 304, idx = Some 0, crawler = Some 0\<rparr>]
   = [\<lparr>ip = Some ''99.1.2.3'', date = Some ''2011-01-02'', cik = Some 5,
       accession = Some ''0001-11-000001'', extention = Some ''htm'',
       code = Some 304, idx = Some 0, crawler = Some 0\<rparr>]"
  using load_prefixes_degrades_to_no_filter
    [of "\<lambda>p. if p = ''ips.csv'' then Some (Csv [(''cidr'', [Some ''10.20.30.0/24''])]) else None"
        "''ips.csv''" "[(''cidr'', [Some ''10.20.30.0/24''])]"
        "[\<lparr>ip = Some ''99.1.2.3'', date = Some ''2011-01-02'', cik = Some 5,
       accession = Some ''0001-11-000001'', extention = Some ''htm'',
       code = Some 304, idx = Some 0, crawler = Some 0\<rparr>]"]
  by simp




section \<open>Master index: retries and isolation of quarters\<close>

lemma appended_nil: "appended st [] [] = st"
  by (simp add: appended_def)

lemma retry_loop_done: "\<not> retries < max_retries \<Longrightarrow> retry_loop attempt year q retries st = st"
  by (simp add: retry_loop.simps)

lemma retry_loop_unfold:
  "retries < max_retries \<Longrightarrow>
   retry_loop attempt year q retries st =
     (case attempt retries of
        DownloadFailed \<Rightarrow>
          (if Suc retries < max_retries
           then retry_loop attempt year q (Suc retries) (appended st [] [Download year q, Sleep 2])
           else appended st [] [Download year q])
      | ParseFault \<Rightarrow>
          retry_loop attempt year q (Suc retries)
            (appended st []
               (Download year q # (if Suc retries < max_retries then [Sleep 2] else []) @ [Remove year q]))
      | Parsed t \<Rightarrow>
          (case verify_table t of
             Fault \<Rightarrow>
               retry_loop attempt year q (Suc retries)
                 (appended st []
                    (Download year q # (if Suc retries < max_retries then [Sleep 2] else []) @ [Remove year q]))
           | MissingColumns \<Rightarrow> appended st [] [Download year q]
           | Verified df \<Rightarrow> appended st [df] [Download year q]))"
  by (subst retry_loop.simps)
     (simp add: Let_def appended_def log_event_def after_fault_def split: fetched.splits verdict.splits)

lemma appended_appended: "appended (appended st fs es) fs' es' = appended st (fs @ fs') (es @ es')"
  by (simp add: appended_def)

lemma retry_loop_appends:
  "retry_loop attempt year q retries st =
     appended st (all_index_dfs (retry_loop attempt year q retries empty_state))
       (trace (retry_loop attempt year q retries empty_state))"
proof (induction "max_retries - retries" arbitrary: retries st)
  case 0
  then have "\<not> retries < max_retries" by simp
  then show ?case by (simp add: retry_loop_done empty_state_def appended_def)
next
  case (Suc n)
  then have lt: "retries < max_retries" and n: "n = max_retries - Suc retries" by auto
  define F where "F = all_index_dfs (retry_loop attempt year q (Suc retries) empty_state)"
  define T where "T = trace (retry_loop attempt year q (Suc retries) empty_state)"
  have key: "retry_loop attempt year q (Suc retries) (appended s [] es) = appended s F (es @ T)" for s es
    using Suc.hyps(1)[OF n, of "appended s [] es"] by (simp add: appended_appended F_def T_def)
  have shape: "\<exists>fs es. \<forall>s. retry_loop attempt year q retries s = appended s fs es"
  proof (cases "attempt retries")
    case DownloadFailed
    then show ?thesis using retry_loop_unfold[OF lt, of attempt year q] key by (cases "Suc retries < max_retries") auto
  next
    case ParseFault
    then show ?thesis using retry_loop_unfold[OF lt, of attempt year q] key by auto
  next
    case (Parsed t)
    then show ?thesis using retry_loop_unfold[OF lt, of attempt year q] key by (cases "verify_table t") auto
  qed
  then obtain fs es where all: "\<And>s. retry_loop attempt year q retries s = appended s fs es" by blast
  show ?case by (simp add: all appended_def empty_state_def)
qed


lemma fold_appended:
  assumes "\<And>x s. f x s = appended s (F x) (T x)"
  shows "fold f xs st = appended st (concat (map F xs)) (concat (map T xs))"
proof (induction xs arbitrary: st)
  case Nil
  show ?case by (simp add: appended_nil)
next
  case (Cons x xs)
  have "fold f (x # xs) st = fold f xs (f x st)" by simp
  also have "\<dots> = appended (f x st) (concat (map F xs)) (concat (map T xs))" by (rule Cons.IH)
  also have "\<dots> = appended st (concat (map F (x # xs))) (concat (map T (x # xs)))"
    by (simp add: assms appended_appended)
  finally show ?case .
qed

lemma retry_loop_quarter:
  "retry_loop attempt year q 0 st =
     appended st (quarter_frames attempt year q) (quarter_events attempt year q)"
  unfolding quarter_frames_def quarter_events_def by (rule retry_loop_appends)

lemma download_quarters_appends:
  "download_quarters world year st =
     appended st (concat (map (\<lambda>q. quarter_frames (world year q) year q) quarters))
       (concat (map (\<lambda>q. quarter_events (world year q) year q) quarters))"
  unfolding download_quarters_def
  by (rule fold_appended) (rule retry_loop_quarter)

lemma download_years_appends:
  "download_years world years st =
     appended st
       (concat (map (\<lambda>y. concat (map (\<lambda>q. quarter_frames (world y q) y q) quarters)) years))
       (concat (map (\<lambda>y. concat (map (\<lambda>q. quarter_events (world y q) y q) quarters)) years))"
  unfolding download_years_def
  by (rule fold_appended) (rule download_quarters_appends)

lemma all_quarters: "q \<in> set quarters"
  by (cases q) (simp_all add: quarters_def)

lemma retry_loop_verified:
  assumes "r \<le> k" and "k < max_retries"
    and "\<forall>j. r \<le> j \<and> j < k \<longrightarrow> is_fault (attempt j)"
    and "fetched_verified (attempt k) = Some df"
  shows "all_index_dfs (retry_loop attempt year q r st) = all_index_dfs st @ [df]"
  using assms
proof (induction "k - r" arbitrary: r st)
  case 0
  then have rk: "r = k" by simp
  from 0 have lt: "r < max_retries" by simp
  from 0(5) rk obtain t where "attempt r = Parsed t" "verify_table t = Verified df"
    by (auto simp: fetched_verified_def split: fetched.splits verdict.splits)
  then show ?case
    by (simp add: retry_loop_unfold[OF lt] appended_def)
next
  case (Suc n)
  then have lt: "r < max_retries" and lt': "Suc r < max_retries" and rk: "r < k" by auto
  have IH: "all_index_dfs (retry_loop attempt year q (Suc r) s) = all_index_dfs s @ [df]" for s
    using Suc.hyps(1)[of "Suc r" s] Suc.hyps(2) Suc.prems rk by auto
  have "is_fault (attempt r)" using Suc.prems(3) rk by simp
  then show ?case
    by (auto simp: is_fault_def retry_loop_unfold[OF lt] lt' IH appended_def split: fetched.splits)
qed

lemma quarter_frames_verified:
  assumes "k < max_retries" and "\<forall>j<k. is_fault (attempt j)"
    and "fetched_verified (attempt k) = Some df"
  shows "quarter_frames attempt year q = [df]"
  using retry_loop_verified[of 0 k attempt df year q empty_state] assms
  by (simp add: quarter_frames_def empty_state_def)

lemma trace_appended: "trace (appended st fs es) = trace st @ es"
  by (simp add: appended_def)

lemma retry_loop_trace_shape:
  assumes "r < max_retries"
  shows "\<exists>n. 1 \<le> n \<and> n + r \<le> max_retries \<and>
           filter (\<lambda>ev. ev \<noteq> Remove year q) (trace (retry_loop attempt year q r empty_state))
             = Download year q # concat (replicate (n - 1) [Sleep 2, Download year q])"
  using assms
proof (induction "max_retries - r" arbitrary: r)
  case 0
  then show ?case by simp
next
  case (Suc m)
  let ?D = "Download year q"
  let ?T = "\<lambda>r. filter (\<lambda>ev. ev \<noteq> Remove year q) (trace (retry_loop attempt year q r empty_state))"
  have lt: "r < max_retries" by (rule Suc.prems)
  have one: "?T r = [?D] \<Longrightarrow> ?case"
    using lt by (intro exI[of _ 1]) simp
  have cont: "?T r = ?D # Sleep 2 # ?T (Suc r) \<Longrightarrow> Suc r < max_retries \<Longrightarrow> ?case"
  proof -
    assume a: "?T r = ?D # Sleep 2 # ?T (Suc r)" and b: "Suc r < max_retries"
    have m: "m = max_retries - Suc r" using Suc.hyps(2) by simp
    from Suc.hyps(1)[OF m b] obtain n where
      n: "1 \<le> n" "n + Suc r \<le> max_retries"
         "?T (Suc r) = ?D # concat (replicate (n - 1) [Sleep 2, ?D])" by blast
    have "?T r = ?D # concat (replicate (Suc n - 1) [Sleep 2, ?D])"
      using a n(1,3) by (cases n) auto
    then show ?case using n(1,2) by (intro exI[of _ "Suc n"]) auto
  qed
  have next_tr: "trace (retry_loop attempt year q (Suc r) (appended empty_state [] es))
        = es @ trace (retry_loop attempt year q (Suc r) empty_state)" for es
    by (subst retry_loop_appends) (simp add: trace_appended empty_state_def appended_def)
  have last_tr: "\<not> Suc r < max_retries \<Longrightarrow> retry_loop attempt year q (Suc r) s = s" for s
    by (simp add: retry_loop_done)
  show ?case
  proof (cases "Suc r < max_retries")
    case True
    show ?thesis
    proof (cases "attempt r")
      case DownloadFailed
      then show ?thesis using True
        by (intro cont) (simp_all add: retry_loop_unfold[OF lt] next_tr)
    next
      case ParseFault
      then show ?thesis using True
        by (intro cont) (simp_all add: retry_loop_unfold[OF lt] next_tr)
    next
      case (Parsed t)
      show ?thesis
      proof (cases "verify_table t")
        case Fault
        then show ?thesis using True Parsed
          by (intro cont) (simp_all add: retry_loop_unfold[OF lt] next_tr)
      next
        case MissingColumns
        then show ?thesis using Parsed
          by (intro one) (simp add: retry_loop_unfold[OF lt] trace_appended empty_state_def)
      next
        case (Verified df)
        then show ?thesis using Parsed
          by (intro one) (simp add: retry_loop_unfold[OF lt] trace_appended empty_state_def)
      qed
    qed
  next
    case False
    show ?thesis
      using False
      by (intro one)
         (simp add: retry_loop_unfold[OF lt] last_tr trace_appended empty_state_def
               split: fetched.splits verdict.splits)
  qed
qed

lemma set_drop_dups_seen: "set (drop_dups_seen seen xs) = set xs - set seen"
  by (induction xs arbitrary: seen) auto

lemma set_drop_duplicates: "set (drop_duplicates xs) = set xs"
  by (simp add: drop_duplicates_def set_drop_dups_seen)

lemma finalize_index_contains:
  "df \<in> set dfs \<Longrightarrow> r \<in> set df \<Longrightarrow> project_row r \<in> set (finalize_index dfs)"
  by (auto simp: finalize_index_def set_drop_duplicates)

text \<open>
  C6. The trace of the index stage is the traces of its quarters, year after year and
  quarter after quarter, whatever happened in the quarters before. For every quarter the
  downloads and waits are: a download, then at most two more, each after a wait of 2; that
  is at most 3 attempts with a wait of 2 between attempts. A quarter of the configured
  years whose table is read and verified at one of its three attempts, all earlier
  attempts being faults, has every row in the final index (projected to form type, filing
  date and join key), whatever the other quarters meet.
\<close>

theorem master_index_retry_and_isolation:
  "snd (run_master_index_download world s e) =
     concat (map (\<lambda>y. concat (map (\<lambda>q. quarter_events (world y q) y q) quarters)) [s..e]) \<and>
   (\<forall>y q. \<exists>n. 1 \<le> n \<and> n \<le> 3 \<and>
        filter (\<lambda>ev. ev \<noteq> Remove y q) (quarter_events (world y q) y q)
          = Download y q # concat (replicate (n - 1) [Sleep 2, Download y q])) \<and>
   (\<forall>y q k df. s \<le> y \<and> y \<le> e \<and> k < 3 \<and> (\<forall>j<k. is_fault (world y q j)) \<and>
        fetched_verified (world y q k) = Some df \<longrightarrow>
        (\<forall>r \<in> set df. project_row r \<in> set (fst (run_master_index_download world s e))))"
proof (intro conjI allI impI)
  show "snd (run_master_index_download world s e) =
     concat (map (\<lambda>y. concat (map (\<lambda>q. quarter_events (world y q) y q) quarters)) [s..e])"
    by (simp add: run_master_index_download_def Let_def download_years_appends trace_appended empty_state_def)
next
  fix y q
  have "0 < max_retries" by (simp add: max_retries_def)
  from retry_loop_trace_shape[OF this, of y q "world y q"]
  show "\<exists>n. 1 \<le> n \<and> n \<le> 3 \<and>
        filter (\<lambda>ev. ev \<noteq> Remove y q) (quarter_events (world y q) y q)
          = Download y q # concat (replicate (n - 1) [Sleep 2, Download y q])"
    by (auto simp: quarter_events_def max_retries_def)
next
  fix y q k df
  assume a: "s \<le> y \<and> y \<le> e \<and> k < 3 \<and> (\<forall>j<k. is_fault (world y q j)) \<and>
        fetched_verified (world y q k) = Some df"
  then have qf: "quarter_frames (world y q) y q = [df]"
    by (intro quarter_frames_verified[of k]) (auto simp: max_retries_def)
  have "all_index_dfs (download_years world [s..e] empty_state) =
        concat (map (\<lambda>y. concat (map (\<lambda>q. quarter_frames (world y q) y q) quarters)) [s..e])"
    by (simp add: download_years_appends appended_def empty_state_def)
  moreover have "y \<in> set [s..e]" using a by simp
  ultimately have "df \<in> set (all_index_dfs (download_years world [s..e] empty_state))"
    using qf all_quarters[of q] by force
  then show "\<forall>r \<in> set df. project_row r \<in> set (fst (run_master_index_download world s e))"
    by (auto simp: run_master_index_download_def Let_def intro: finalize_index_contains)
qed

lemma demo_verified:
  "fetched_verified (Parsed demo_table) =
     Some [\<lparr>CIK = Some ''1000045'', Form_Type = Some ''10-Q'', Date_Filed = Some ''2010-05-03'',
            Filename = Some ''edgar/data/1000045/000119312510012345.txt''\<rparr>]"
  by (simp add: fetched_verified_def verify_table_def demo_table_def expected_cols_def strip_def
      isspace_chr_def isdigit_def)

text \<open>
  The theorem on the sample run over 2010 and 2011: the second quarter of 2010 is read at
  its second attempt, after the first quarter has used up its three attempts, and its row
  is in the final index.
\<close>

theorem master_index_retry_and_isolation_witness:
  "\<lparr>m_form_type = Some ''10-Q'', m_date_filed = Some ''2010-05-03'',
     acc_path = ''edgar/data/1000045/000119312510012345''\<rparr>
     \<in> set (fst (run_master_index_download demo_world 2010 2011)) \<and>
   quarter_events (demo_world 2010 QTR1) 2010 QTR1 =
     [Download 2010 QTR1, Sleep 2, Download 2010 QTR1, Sleep 2, Download 2010 QTR1]"
proof -
  let ?row = "\<lparr>CIK = Some ''1000045'', Form_Type = Some ''10-Q'', Date_Filed = Some ''2010-05-03'',
            Filename = Some ''edgar/data/1000045/000119312510012345.txt''\<rparr>"
  have f: "\<forall>j<1. is_fault (demo_world 2010 QTR2 j)"
    by (simp add: is_fault_def demo_world_def)
  have v: "fetched_verified (demo_world 2010 QTR2 1) = Some [?row]"
    by (simp add: demo_world_def demo_verified)
  have p: "project_row ?row =
     \<lparr>m_form_type = Some ''10-Q'', m_date_filed = Some ''2010-05-03'',
      acc_path = ''edgar/data/1000045/000119312510012345''\<rparr>"
    by (simp add: project_row_def index_acc_path_def str_cell_def)
  have e: "quarter_events (demo_world 2010 QTR1) 2010 QTR1 =
     [Download 2010 QTR1, Sleep 2, Download 2010 QTR1, Sleep 2, Download 2010 QTR1]"
    by (simp add: quarter_events_def retry_loop_unfold retry_loop_done
        demo_world_def max_retries_def appended_def empty_state_def)
  from master_index_retry_and_isolation[of demo_world 2010 2011]
  have "\<forall>y q k df. 2010 \<le> y \<and> y \<le> 2011 \<and> k < 3 \<and> (\<forall>j<k. is_fault (demo_world y q j)) \<and>
        fetched_verified (demo_world y q k) = Some df \<longrightarrow>
        (\<forall>r \<in> set df. project_row r \<in> set (fst (run_master_index_download demo_world 2010 2011)))"
    by blast
  from this[rule_format, of 2010 1 QTR2 "[?row]" ?row] f v
  have "project_row ?row \<in> set (fst (run_master_index_download demo_world 2010 2011))"
    by simp
  then show ?thesis using e by (simp only: p)
qed

section \<open>Reconciliation\<close>

lemma left_merge_rows:
  assumes "r \<in> set (left_merge master logs)"
  shows "\<exists>l \<in> set logs. m_cik r = a_cik l \<and> m_accession r = a_accession l \<and>
           ((form r = None \<and> filing_date r = None) \<or>
            log_acc_path (a_cik l) (a_accession l) \<in> acc_path ` set master)"
proof -
  from assms obtain l where l: "l \<in> set logs"
    and r: "r \<in> set (case filter (\<lambda>m. acc_path m = log_acc_path (a_cik l) (a_accession l)) master of
                       [] \<Rightarrow> [joined l None None]
                     | ms \<Rightarrow> map (\<lambda>m. joined l (m_form_type m) (m_date_filed m)) ms)"
    by (auto simp: left_merge_def)
  show ?thesis
  proof (cases "filter (\<lambda>m. acc_path m = log_acc_path (a_cik l) (a_accession l)) master")
    case Nil
    then show ?thesis using l r by (auto simp: joined_def)
  next
    case (Cons m ms)
    then have "m \<in> set (filter (\<lambda>m. acc_path m = log_acc_path (a_cik l) (a_accession l)) master)"
      by simp
    then have "log_acc_path (a_cik l) (a_accession l) \<in> acc_path ` set master" by force
    then show ?thesis using l r Cons by (auto simp: joined_def)
  qed
qed

lemma merge_year_rows:
  assumes "merge_year master csv_files = Some rows" and "r \<in> set rows"
  shows "(form r = None \<and> filing_date r = None) \<or>
         log_acc_path (m_cik r) (m_accession r) \<in> acc_path ` set master"
proof -
  from assms obtain logs where "r \<in> set (left_merge master logs)"
    by (auto simp: merge_year_def split: option.splits if_splits)
  from left_merge_rows[OF this] show ?thesis by auto
qed

lemma those_rows_Some:
  "those_rows xs = Some ys \<Longrightarrow> y \<in> set ys \<Longrightarrow> Some y \<in> set xs"
  by (induction xs arbitrary: ys) (auto split: option.splits)

lemma convert_date_fields:
  "convert_date to_datetime r = Some r' \<Longrightarrow>
     m_cik r' = m_cik r \<and> m_accession r' = m_accession r \<and> form r' = form r \<and>
     filing_date r' = filing_date r"
  by (auto simp: convert_date_def)

lemma merge_cases:
  "merge_logs_and_index to_datetime master_index_df year_files = Inr [] \<or>
   merge_logs_and_index to_datetime master_index_df year_files =
     (case those_rows (map (convert_date to_datetime)
             (filter (\<lambda>r. form r \<noteq> None \<and> filing_date r \<noteq> None)
                (concat (List.map_filter (merge_year master_index_df) year_files)))) of
        None \<Rightarrow> Inl DateParseError
      | Some rows \<Rightarrow> Inr (sort_key (\<lambda>r. (m_cik r, m_date r, form r)) rows))"
  unfolding merge_logs_and_index_def Let_def by presburger

lemma result_rows:
  "out \<noteq> [] \<Longrightarrow> X = Inr out \<Longrightarrow>
   X = Inr [] \<or> X = (case T of None \<Rightarrow> Inl DateParseError | Some rows \<Rightarrow> Inr (S rows)) \<Longrightarrow>
   \<exists>rows. T = Some rows \<and> out = S rows"
  by (cases T) auto

lemma converted_from:
  "Some r \<in> set (map f xs) \<Longrightarrow> \<exists>r0 \<in> set xs. f r0 = Some r"
  by (simp only: set_map) (metis imageE)

lemma map_filter_from:
  "ys \<in> set (List.map_filter f xs) \<Longrightarrow> \<exists>x. f x = Some ys"
  by (auto simp: List.map_filter_def)

text \<open>
  C5. With an empty master index the merge returns the empty table. Whatever the master
  index, every row of the merged table has a form type and a filing date, and its join
  key is the key of a master-index entry: a log row whose key matches no entry is not in
  the output.
\<close>

theorem merge_drops_unresolved:
  "merge_logs_and_index to_datetime [] year_files = Inr [] \<and>
   (merge_logs_and_index to_datetime master_index_df year_files = Inr out \<longrightarrow>
      (\<forall>r \<in> set out. form r \<noteq> None \<and> filing_date r \<noteq> None \<and>
          log_acc_path (m_cik r) (m_accession r) \<in> acc_path ` set master_index_df))"
proof (rule conjI)
  show "merge_logs_and_index to_datetime [] year_files = Inr []"
    by (simp add: merge_logs_and_index_def)
next
  show "merge_logs_and_index to_datetime master_index_df year_files = Inr out \<longrightarrow>
      (\<forall>r \<in> set out. form r \<noteq> None \<and> filing_date r \<noteq> None \<and>
          log_acc_path (m_cik r) (m_accession r) \<in> acc_path ` set master_index_df)"
  proof (rule impI, rule ballI)
    fix r
    assume res: "merge_logs_and_index to_datetime master_index_df year_files = Inr out"
      and r: "r \<in> set out"
    let ?merged = "List.map_filter (merge_year master_index_df) year_files"
    let ?final = "filter (\<lambda>r. form r \<noteq> None \<and> filing_date r \<noteq> None) (concat ?merged)"
    from r have ne: "out \<noteq> []" by auto
    from result_rows[OF ne res merge_cases]
    obtain rows where rows: "those_rows (map (convert_date to_datetime) ?final) = Some rows"
      and out: "out = sort_key (\<lambda>r. (m_cik r, m_date r, form r)) rows"
      by blast
    from r have "r \<in> set rows" unfolding out by (simp only: set_sort)
    from converted_from[OF those_rows_Some[OF rows this]]
    obtain r0 where r0: "r0 \<in> set ?final"
      and conv: "convert_date to_datetime r0 = Some r" by blast
    from r0 have present: "form r0 \<noteq> None \<and> filing_date r0 \<noteq> None"
      and "r0 \<in> set (concat ?merged)" unfolding set_filter by blast+
    then obtain rows0 where in_m: "rows0 \<in> set ?merged" and in_r: "r0 \<in> set rows0"
      unfolding set_concat by blast
    from map_filter_from[OF in_m] obtain files where
      my: "merge_year master_index_df files = Some rows0" by blast
    from merge_year_rows[OF my in_r] present
    have key: "log_acc_path (m_cik r0) (m_accession r0) \<in> acc_path ` set master_index_df"
      by blast
    from convert_date_fields[OF conv]
    have eqs: "m_cik r = m_cik r0" "m_accession r = m_accession r0" "form r = form r0"
      "filing_date r = filing_date r0" by blast+
    show "form r \<noteq> None \<and> filing_date r \<noteq> None \<and>
            log_acc_path (m_cik r) (m_accession r) \<in> acc_path ` set master_index_df"
      unfolding eqs using present key by blast
  qed
qed

lemma one_year_merged:
  "merge_logs_and_index Some
     [\<lparr>m_form_type = Some ''10-K'', m_date_filed = Some ''2011-03-01'',
       acc_path = ''edgar/data/5/000111000001''\<rparr>]
     [[Frame [\<lparr>a_date = ''2011-04-02'', a_cik = 5, a_accession = ''0001-11-000001'', nr_total = 2,
              a_htm = 1, a_txt = 0, a_xbrl = 0, a_other = 1\<rparr>,
            \<lparr>a_date = ''2011-04-01'', a_cik = 7, a_accession = ''0001-11-000002'', nr_total = 1,
              a_htm = 0, a_txt = 1, a_xbrl = 0, a_other = 0\<rparr>], EmptyDataError], []]
   = Inr [\<lparr>m_date = ''2011-04-02'', m_cik = 5, m_accession = ''0001-11-000001'', m_nr_total = 2,
           m_htm = 1, m_txt = 0, m_xbrl = 0, m_other = 1, form = Some ''10-K'',
           filing_date = Some ''2011-03-01''\<rparr>]"
proof -
  have s5: "str_int 5 = ''5''" and s7: "str_int 7 = ''7''"
    by (simp_all add: str_int_def str_nat_small digit_chr_def)
  show ?thesis
    by (simp add: merge_logs_and_index_def merge_year_def load_year_def List.map_filter_def
        left_merge_def normalize_log_row_def astype_int_def strip_dot0_def log_acc_path_def
        remove_chr_def joined_def convert_date_def s5 s7 Let_def)
qed

text \<open>
  The theorem on one index entry and two log rows, of which one has the entry's key: the
  output is the matched row with the entry's form type and filing date, and the other log
  row is absent.
\<close>

theorem merge_drops_unresolved_witness:
  "merge_logs_and_index Some
     [\<lparr>m_form_type = Some ''10-K'', m_date_filed = Some ''2011-03-01'',
       acc_path = ''edgar/data/5/000111000001''\<rparr>]
     [[Frame [\<lparr>a_date = ''2011-04-02'', a_cik = 5, a_accession = ''0001-11-000001'', nr_total = 2,
              a_htm = 1, a_txt = 0, a_xbrl = 0, a_other = 1\<rparr>,
            \<lparr>a_date = ''2011-04-01'', a_cik = 7, a_accession = ''0001-11-000002'', nr_total = 1,
              a_htm = 0, a_txt = 1, a_xbrl = 0, a_other = 0\<rparr>], EmptyDataError], []]
   = Inr [\<lparr>m_date = ''2011-04-02'', m_cik = 5, m_accession = ''0001-11-000001'', m_nr_total = 2,
           m_htm = 1, m_txt = 0, m_xbrl = 0, m_other = 1, form = Some ''10-K'',
           filing_date = Some ''2011-03-01''\<rparr>] \<and>
   log_acc_path 5 ''0001-11-000001'' \<in> {''edgar/data/5/000111000001''}"
  using merge_drops_unresolved
    [of Some "[[Frame [\<lparr>a_date = ''2011-04-02'', a_cik = 5, a_accession = ''0001-11-000001'', nr_total = 2,
              a_htm = 1, a_txt = 0, a_xbrl = 0, a_other = 1\<rparr>,
            \<lparr>a_date = ''2011-04-01'', a_cik = 7, a_accession = ''0001-11-000002'', nr_total = 1,
              a_htm = 0, a_txt = 1, a_xbrl = 0, a_other = 0\<rparr>], EmptyDataError], []]"
        "[\<lparr>m_form_type = Some ''10-K'', m_date_filed = Some ''2011-03-01'',
       acc_path = ''edgar/data/5/000111000001''\<rparr>]"
        "[\<lparr>m_date = ''2011-04-02'', m_cik = 5, m_accession = ''0001-11-000001'', m_nr_total = 2,
           m_htm = 1, m_txt = 0, m_xbrl = 0, m_other = 1, form = Some ''10-K'',
           filing_date = Some ''2011-03-01''\<rparr>]"]
    one_year_merged
  by simp

end
